theory Spec2Isabelle
  imports Main "HOL-Library.Word" "HOL-Library.Char_ord"
begin

section \<open>apps/netutils/netlib/netlib\_ipv6route.c\<close>

text \<open>
  The file reads one entry of the procfs IPv6 routing table per call: three text lines
  (target, netmask, router), each with an IPv6 address in text form at a fixed column.
  Lines are fetched with \<^verbatim>\<open>fgets\<close> into a local buffer of
  \<^verbatim>\<open>PROCFS_LINELEN\<close> characters, the address is cut out in place by
  \<^verbatim>\<open>set_nul_terminator\<close> and converted by \<^verbatim>\<open>inet_pton\<close>.
\<close>

subsection \<open>Constants of the file\<close>

definition PROCFS_LINELEN :: nat where
  "PROCFS_LINELEN = 58"

definition ADDR_OFFSET :: nat where
  "ADDR_OFFSET = 15"

abbreviation NUL :: char where
  "NUL \<equiv> CHR 0x00"

abbreviation newline :: char where
  "newline \<equiv> CHR 0x0A"

subsection \<open>What the file takes from its headers and from libc\<close>

type_synonym in6_addr = "128 word"

text \<open>
  Modelled from the spec: \<^verbatim>\<open>struct netlib_ipv6_route_s\<close>, whose declaration in
  \<^verbatim>\<open>netutils/netlib.h\<close> is missing. The spec's Route Record has the three 128-bit
  fields the code writes: prefix, netmask and router.
\<close>

record netlib_ipv6_route_s =
  prefix :: in6_addr
  netmask :: in6_addr
  router :: in6_addr

text \<open>
  Modelled from the spec: the size of the Route Record, three 128-bit addresses, in
  bytes; the value the code returns on success as
  \<^verbatim>\<open>sizeof(struct netlib_ipv6_route_s)\<close>.
\<close>

definition sizeof_route :: int where
  "sizeof_route = 48"

text \<open>
  What the target and the C library decide is a parameter of the model:
  \<^item> whether plain \<^verbatim>\<open>char\<close> is signed on the target (it decides the value
    of \<^verbatim>\<open>line[0]\<close> and \<^verbatim>\<open>*str\<close> in a comparison for bytes above 127);
  \<^item> the value of \<^verbatim>\<open>EINVAL\<close> from \<^verbatim>\<open>errno.h\<close>;
  \<^item> \<^verbatim>\<open>inet_pton(AF_INET6, src, dst)\<close>: from the text at \<open>src\<close> and the
    sixteen bytes now at \<open>dst\<close> to the value returned and the sixteen bytes at
    \<open>dst\<close> afterwards.

  The line read, \<^verbatim>\<open>fgets\<close>, is modelled below on a stream of characters. The two
  pointers the function takes are not null (its \<^verbatim>\<open>DEBUGASSERT\<close>): the model takes
  the stream and the record themselves.
\<close>

record platform =
  char_is_signed :: bool
  einval :: int
  inet_pton6 :: "string \<Rightarrow> in6_addr \<Rightarrow> int \<times> in6_addr"

text \<open>The value of a \<^verbatim>\<open>char\<close> once promoted to \<^verbatim>\<open>int\<close>.\<close>

definition cval :: "platform \<Rightarrow> char \<Rightarrow> int" where
  "cval E c =
     (if char_is_signed E \<and> 128 \<le> (of_char c :: int) then of_char c - 256 else of_char c)"

text \<open>A character constant such as \<^verbatim>\<open>'0'\<close> has type \<^verbatim>\<open>int\<close>.\<close>

definition cconst :: "char \<Rightarrow> int" where
  "cconst c = of_char c"

subsection \<open>The stream\<close>

text \<open>
  A \<^verbatim>\<open>FILE *\<close> open for reading: the characters not yet consumed, and what the
  underlying read reports once they are used up, end of file or an I/O error.
\<close>

datatype stream_end = AtEOF | ReadError

record stream =
  pending :: string
  ending :: stream_end

text \<open>
  The characters one \<^verbatim>\<open>fgets\<close> call takes from the stream: up to and including
  the first newline, at most \<open>n\<close> of them.
\<close>

fun take_line :: "nat \<Rightarrow> string \<Rightarrow> string" where
  "take_line 0 cs = []"
| "take_line (Suc n) [] = []"
| "take_line (Suc n) (c # cs) = (if c = newline then [c] else c # take_line n cs)"

text \<open>The stream after one \<^verbatim>\<open>fgets\<close> call on a buffer of \<open>n\<close> characters.\<close>

definition after_fgets :: "nat \<Rightarrow> stream \<Rightarrow> stream" where
  "after_fgets n s = s\<lparr>pending := drop (length (take_line (n - 1) (pending s))) (pending s)\<rparr>"

text \<open>The buffer after \<^verbatim>\<open>fgets\<close> stored the characters \<open>got\<close> and a NUL.\<close>

definition store_line :: "string \<Rightarrow> char list \<Rightarrow> char list" where
  "store_line got buf = got @ NUL # drop (Suc (length got)) buf"

text \<open>
  Modelled from the spec: \<^verbatim>\<open>fgets(buf, n, stream)\<close>, the line read of the C library,
  whose code is missing. The spec's line fetch reads up to capacity - 1 bytes, up to and
  including the first line terminator, and signals the end of the stream when no data is
  available. As in ISO C, \<open>None\<close> is the null pointer, returned at end of file when no
  character was read and on a read error; otherwise the buffer holds the characters read,
  then a NUL, and keeps what it held beyond that.
\<close>

definition fgets :: "nat \<Rightarrow> char list \<Rightarrow> stream \<Rightarrow> char list option \<times> stream" where
  "fgets n buf s =
     (let got = take_line (n - 1) (pending s) in
      if length got < n - 1 \<and> (got = [] \<or> last got \<noteq> newline)
      then (case ending s of
              ReadError \<Rightarrow> (None, after_fgets n s)
            | AtEOF \<Rightarrow>
                if got = [] then (None, after_fgets n s)
                else (Some (store_line got buf), after_fgets n s))
      else (Some (store_line got buf), after_fgets n s))"

subsection \<open>set\_nul\_terminator\<close>

text \<open>The condition of the \<^verbatim>\<open>while\<close> loop, on the character \<^verbatim>\<open>*str\<close>.\<close>

definition addr_char :: "platform \<Rightarrow> char \<Rightarrow> bool" where
  "addr_char E c \<longleftrightarrow>
     (cval E c \<ge> cconst CHR ''0'' \<and> cval E c \<le> cconst CHR ''9'') \<or>
     (cval E c \<ge> cconst CHR ''a'' \<and> cval E c \<le> cconst CHR ''f'') \<or>
     (cval E c \<ge> cconst CHR ''A'' \<and> cval E c \<le> cconst CHR ''F'') \<or>
     cval E c = cconst CHR '':''"

text \<open>
  The loop: \<^verbatim>\<open>str\<close> is the index \<open>i\<close> into the array \<open>buf\<close>. \<open>None\<close> when
  \<^verbatim>\<open>str\<close> leaves the array, where the C program would read and then write outside
  the buffer.
\<close>

function scan_addr :: "platform \<Rightarrow> char list \<Rightarrow> nat \<Rightarrow> nat option" where
  "scan_addr E buf i =
     (if length buf \<le> i then None
      else if addr_char E (buf ! i) then scan_addr E buf (Suc i)
      else Some i)"
  by pat_completeness auto
termination
  by (relation "measure (\<lambda>(E, buf, i). length buf - i)") auto

declare scan_addr.simps [simp del]

text \<open>\<^verbatim>\<open>set_nul_terminator(&buf[off])\<close>: the buffer after \<^verbatim>\<open>*str = '\0'\<close>.\<close>

definition set_nul_terminator :: "platform \<Rightarrow> char list \<Rightarrow> nat \<Rightarrow> char list option" where
  "set_nul_terminator E buf off =
     (case scan_addr E buf off of
        None \<Rightarrow> None
      | Some k \<Rightarrow> Some (buf[k := NUL]))"

subsection \<open>netlib\_read\_ipv6route\<close>

text \<open>The C string that starts at \<^verbatim>\<open>&buf[off]\<close>.\<close>

definition c_str :: "char list \<Rightarrow> nat \<Rightarrow> string" where
  "c_str buf off = takeWhile (\<lambda>c. c \<noteq> NUL) (drop off buf)"

text \<open>
  The three statements each stage runs before the conversion: the forced NUL in the last
  element of the line, \<^verbatim>\<open>addr = &line[ADDR_OFFSET]\<close> and
  \<^verbatim>\<open>set_nul_terminator(addr)\<close>. The result is the line afterwards and the text at
  \<^verbatim>\<open>addr\<close>.
\<close>

definition addr_token :: "platform \<Rightarrow> char list \<Rightarrow> (char list \<times> string) option" where
  "addr_token E line =
     (case set_nul_terminator E (line[PROCFS_LINELEN - 1 := NUL]) ADDR_OFFSET of
        None \<Rightarrow> None
      | Some line' \<Rightarrow> Some (line', c_str line' ADDR_OFFSET))"

text \<open>
  How a part of the function body ends: with a \<^verbatim>\<open>return\<close> of a value, or by
  running on to the statement after it.
\<close>

datatype ctl = Return int | Fallthrough

type_synonym stage_result = "(ctl \<times> char list \<times> stream \<times> netlib_ipv6_route_s) option"

text \<open>
  Each part of the body takes and gives the local \<^verbatim>\<open>line\<close>, the stream and the
  caller's record; \<open>None\<close> is an access outside \<^verbatim>\<open>line\<close>.

  Lines 141 to 158: the conversion of the first line into \<^verbatim>\<open>route->prefix\<close>.
\<close>

definition convert_prefix ::
  "platform \<Rightarrow> char list \<Rightarrow> stream \<Rightarrow> netlib_ipv6_route_s \<Rightarrow> stage_result" where
  "convert_prefix E line s route =
     (case addr_token E line of
        None \<Rightarrow> None
      | Some (line', addr) \<Rightarrow>
          (case inet_pton6 E addr (prefix route) of
             (ret, dst) \<Rightarrow>
               if ret < 0 then Some (Return ret, line', s, route\<lparr>prefix := dst\<rparr>)
               else if ret = 0 then Some (Return (- einval E), line', s, route\<lparr>prefix := dst\<rparr>)
               else Some (Fallthrough, line', s, route\<lparr>prefix := dst\<rparr>)))"

text \<open>Lines 176 to 193: the conversion of the second line into \<^verbatim>\<open>route->netmask\<close>.\<close>

definition convert_netmask ::
  "platform \<Rightarrow> char list \<Rightarrow> stream \<Rightarrow> netlib_ipv6_route_s \<Rightarrow> stage_result" where
  "convert_netmask E line s route =
     (case addr_token E line of
        None \<Rightarrow> None
      | Some (line', addr) \<Rightarrow>
          (case inet_pton6 E addr (netmask route) of
             (ret, dst) \<Rightarrow>
               if ret < 0 then Some (Return ret, line', s, route\<lparr>netmask := dst\<rparr>)
               else if ret = 0 then Some (Return (- einval E), line', s, route\<lparr>netmask := dst\<rparr>)
               else Some (Fallthrough, line', s, route\<lparr>netmask := dst\<rparr>)))"

text \<open>Lines 211 to 228: the conversion of the third line into \<^verbatim>\<open>route->router\<close>.\<close>

definition convert_router ::
  "platform \<Rightarrow> char list \<Rightarrow> stream \<Rightarrow> netlib_ipv6_route_s \<Rightarrow> stage_result" where
  "convert_router E line s route =
     (case addr_token E line of
        None \<Rightarrow> None
      | Some (line', addr) \<Rightarrow>
          (case inet_pton6 E addr (router route) of
             (ret, dst) \<Rightarrow>
               if ret < 0 then Some (Return ret, line', s, route\<lparr>router := dst\<rparr>)
               else if ret = 0 then Some (Return (- einval E), line', s, route\<lparr>router := dst\<rparr>)
               else Some (Fallthrough, line', s, route\<lparr>router := dst\<rparr>)))"

text \<open>Lines 125 to 158: the first line of the group.\<close>

definition read_prefix ::
  "platform \<Rightarrow> char list \<Rightarrow> stream \<Rightarrow> netlib_ipv6_route_s \<Rightarrow> stage_result" where
  "read_prefix E line s route =
     (case fgets PROCFS_LINELEN line s of
        (None, s') \<Rightarrow> Some (Return 0, line, s', route)
      | (Some line1, s') \<Rightarrow>
          if cval E (line1 ! 0) < cconst CHR ''0'' \<or> cval E (line1 ! 0) > 9
          then Some (Return (- einval E), line1, s', route)
          else convert_prefix E line1 s' route)"

text \<open>Lines 160 to 193: the second line of the group.\<close>

definition read_netmask ::
  "platform \<Rightarrow> char list \<Rightarrow> stream \<Rightarrow> netlib_ipv6_route_s \<Rightarrow> stage_result" where
  "read_netmask E line s route =
     (case fgets PROCFS_LINELEN line s of
        (None, s') \<Rightarrow> Some (Return 0, line, s', route)
      | (Some line1, s') \<Rightarrow>
          if cval E (line1 ! 0) \<noteq> cconst CHR '' ''
          then Some (Return (- einval E), line1, s', route)
          else convert_netmask E line1 s' route)"

text \<open>Lines 195 to 228: the third line of the group.\<close>

definition read_router ::
  "platform \<Rightarrow> char list \<Rightarrow> stream \<Rightarrow> netlib_ipv6_route_s \<Rightarrow> stage_result" where
  "read_router E line s route =
     (case fgets PROCFS_LINELEN line s of
        (None, s') \<Rightarrow> Some (Return 0, line, s', route)
      | (Some line1, s') \<Rightarrow>
          if cval E (line1 ! 0) \<noteq> cconst CHR '' ''
          then Some (Return (- einval E), line1, s', route)
          else convert_router E line1 s' route)"

text \<open>
  The whole function. \<open>line0\<close> is what the uninitialised local \<^verbatim>\<open>line\<close> holds on
  entry. The result is the value returned, the stream and the caller's record afterwards.
\<close>

definition netlib_read_ipv6route ::
  "platform \<Rightarrow> char list \<Rightarrow> stream \<Rightarrow> netlib_ipv6_route_s
     \<Rightarrow> (int \<times> stream \<times> netlib_ipv6_route_s) option" where
  "netlib_read_ipv6route E line0 s route =
     (case read_prefix E line0 s route of
        None \<Rightarrow> None
      | Some (Return v, _, s1, r1) \<Rightarrow> Some (v, s1, r1)
      | Some (Fallthrough, line1, s1, r1) \<Rightarrow>
          (case read_netmask E line1 s1 r1 of
             None \<Rightarrow> None
           | Some (Return v, _, s2, r2) \<Rightarrow> Some (v, s2, r2)
           | Some (Fallthrough, line2, s2, r2) \<Rightarrow>
               (case read_router E line2 s2 r2 of
                  None \<Rightarrow> None
                | Some (Return v, _, s3, r3) \<Rightarrow> Some (v, s3, r3)
                | Some (Fallthrough, _, s3, r3) \<Rightarrow> Some (sizeof_route, s3, r3))))"

text \<open>
  The end of the body from a later stage on, for the properties that follow a call stage
  by stage: lines 195 to 230, the third stage and the \<^verbatim>\<open>return\<close> of the size of
  the record.
\<close>

definition from_router ::
  "platform \<Rightarrow> char list \<Rightarrow> stream \<Rightarrow> netlib_ipv6_route_s
     \<Rightarrow> (int \<times> stream \<times> netlib_ipv6_route_s) option" where
  "from_router E line s route =
     (case read_router E line s route of
        None \<Rightarrow> None
      | Some (Return v, _, s3, r3) \<Rightarrow> Some (v, s3, r3)
      | Some (Fallthrough, _, s3, r3) \<Rightarrow> Some (sizeof_route, s3, r3))"

text \<open>Lines 160 to 230: the second stage, then the third.\<close>

definition from_netmask ::
  "platform \<Rightarrow> char list \<Rightarrow> stream \<Rightarrow> netlib_ipv6_route_s
     \<Rightarrow> (int \<times> stream \<times> netlib_ipv6_route_s) option" where
  "from_netmask E line s route =
     (case read_netmask E line s route of
        None \<Rightarrow> None
      | Some (Return v, _, s2, r2) \<Rightarrow> Some (v, s2, r2)
      | Some (Fallthrough, line2, s2, r2) \<Rightarrow> from_router E line2 s2 r2)"

subsection \<open>The properties' own notions and the data of the examples\<close>

text \<open>The characters an address is written with: hexadecimal digits and the colon.\<close>

definition hex_digit_or_colon :: "char \<Rightarrow> bool" where
  "hex_digit_or_colon c \<longleftrightarrow> c \<in> set ''0123456789abcdefABCDEF:''"

text \<open>
  A platform for the examples: unsigned \<^verbatim>\<open>char\<close>, \<^verbatim>\<open>EINVAL\<close> 22, and a
  conversion that knows the three addresses of the examples and reports no match, leaving
  the destination alone, for every other text.
\<close>

definition demo_pton :: "string \<Rightarrow> in6_addr \<Rightarrow> int \<times> in6_addr" where
  "demo_pton src dst =
     (if src = ''2001:db8::'' then (1, 0x20010db8000000000000000000000000)
      else if src = ''ffff:ffff:ffff:ffff::'' then (1, 0xffffffffffffffff0000000000000000)
      else if src = ''fe80::1'' then (1, 0xfe800000000000000000000000000001)
      else (0, dst))"

definition demo_platform :: platform where
  "demo_platform = \<lparr>char_is_signed = False, einval = 22, inet_pton6 = demo_pton\<rparr>"

text \<open>One group of the routing table in the layout the file documents.\<close>

definition target_line :: string where
  "target_line = ''1234. target:  2001:db8::'' @ [newline]"

definition netmask_line :: string where
  "netmask_line = ''      netmask: ffff:ffff:ffff:ffff::'' @ [newline]"

definition router_line :: string where
  "router_line = ''      router:  fe80::1'' @ [newline]"

text \<open>Some content for the local \<^verbatim>\<open>line\<close> on entry, and for the caller's record.\<close>

definition stale_line :: "char list" where
  "stale_line = replicate 58 CHR ''#''"

definition zero_route :: netlib_ipv6_route_s where
  "zero_route = \<lparr>prefix = 0, netmask = 0, router = 0\<rparr>"

text \<open>What is left of a text once its first line, up to and including the newline, is taken.\<close>

fun rest_after_line :: "string \<Rightarrow> string" where
  "rest_after_line [] = []"
| "rest_after_line (c # cs) = (if c = newline then cs else rest_after_line cs)"

text \<open>A line longer than the buffer, and a record whose three fields differ.\<close>

definition long_line :: string where
  "long_line = replicate 70 CHR ''7'' @ [newline]"


section \<open>Properties\<close>

subsection \<open>Characters\<close>

lemma of_char_int_range: "0 \<le> (of_char c :: int) \<and> (of_char c :: int) < 256"
proof -
  have "(of_char c :: int) = int (of_char c)" by (simp add: of_nat_of_char)
  moreover have "(of_char c :: nat) < 256" by simp
  ultimately show ?thesis by linarith
qed

lemma char_eq_iff_int: "c = d \<longleftrightarrow> (of_char c :: int) = of_char d"
  by simp

text \<open>
  The loop condition of \<^verbatim>\<open>set_nul_terminator\<close> holds for the hexadecimal digits
  and the colon and for nothing else, whether \<^verbatim>\<open>char\<close> is signed or not.
\<close>

lemma addr_char_iff: "addr_char E c \<longleftrightarrow> hex_digit_or_colon c"
proof -
  have r: "0 \<le> (of_char c :: int)" "(of_char c :: int) < 256"
    using of_char_int_range by auto
  show ?thesis
  proof (cases "char_is_signed E \<and> 128 \<le> (of_char c :: int)")
    case True
    then show ?thesis
      unfolding hex_digit_or_colon_def addr_char_def cval_def cconst_def
      apply (simp add: char_eq_iff_int [of c])
      using r by linarith
  next
    case False
    then have "cval E c = of_char c" by (auto simp: cval_def)
    then show ?thesis
      unfolding hex_digit_or_colon_def addr_char_def cconst_def
      apply (simp add: char_eq_iff_int [of c])
      by presburger
  qed
qed

lemma not_addr_char_NUL: "\<not> addr_char E NUL"
  by (simp add: addr_char_iff hex_digit_or_colon_def)

text \<open>
  The test on the first line, \<^verbatim>\<open>line[0] < '0' || line[0] > 9\<close>, compares with the
  integer 9: it holds for every character, on either kind of \<^verbatim>\<open>char\<close>.
\<close>

lemma index_check_holds:
  "cval E c < cconst CHR ''0'' \<or> cval E c > 9"
  by (simp add: cconst_def) linarith

lemma cval_eq_space: "cval E c = cconst CHR '' '' \<longleftrightarrow> c = CHR '' ''"
  using of_char_int_range [of c]
  by (auto simp add: cval_def cconst_def char_eq_iff_int [of c])

subsection \<open>The scan of set\_nul\_terminator\<close>

lemma scan_addr_Some:
  "scan_addr E buf i = Some k \<Longrightarrow>
     i \<le> k \<and> k < length buf \<and> \<not> addr_char E (buf ! k) \<and>
     (\<forall>j. i \<le> j \<and> j < k \<longrightarrow> addr_char E (buf ! j))"
proof (induction E buf i rule: scan_addr.induct)
  case (1 E buf i)
  show ?case
  proof (cases "length buf \<le> i")
    case True
    with "1.prems" show ?thesis by (simp add: scan_addr.simps [of E buf i])
  next
    case inb: False
    show ?thesis
    proof (cases "addr_char E (buf ! i)")
      case True
      with inb "1.prems" have "scan_addr E buf (Suc i) = Some k"
        by (simp add: scan_addr.simps [of E buf i])
      with "1.IH" inb True have ih:
        "Suc i \<le> k \<and> k < length buf \<and> \<not> addr_char E (buf ! k) \<and>
         (\<forall>j. Suc i \<le> j \<and> j < k \<longrightarrow> addr_char E (buf ! j))"
        by simp
      have "addr_char E (buf ! j)" if "i \<le> j" "j < k" for j
      proof (cases "j = i")
        case True
        then show ?thesis using \<open>addr_char E (buf ! i)\<close> by simp
      next
        case False
        with that have "Suc i \<le> j" by simp
        with ih that show ?thesis by blast
      qed
      with ih show ?thesis by auto
    next
      case False
      with inb "1.prems" have "k = i"
        by (simp add: scan_addr.simps [of E buf i])
      with inb False show ?thesis by auto
    qed
  qed
qed

lemma scan_addr_finds:
  "i \<le> j \<Longrightarrow> j < length buf \<Longrightarrow> \<not> addr_char E (buf ! j) \<Longrightarrow>
     \<exists>k. k \<le> j \<and> scan_addr E buf i = Some k"
proof (induction E buf i rule: scan_addr.induct)
  case (1 E buf i)
  from "1.prems" have inb: "\<not> length buf \<le> i" by simp
  show ?case
  proof (cases "addr_char E (buf ! i)")
    case True
    with "1.prems" have "i \<noteq> j" by auto
    with "1.prems" have "Suc i \<le> j" by simp
    with "1.IH" [OF inb True] "1.prems" obtain k
      where "k \<le> j" "scan_addr E buf (Suc i) = Some k" by blast
    with inb True show ?thesis by (simp add: scan_addr.simps [of E buf i])
  next
    case False
    with inb "1.prems" show ?thesis by (simp add: scan_addr.simps [of E buf i])
  qed
qed

subsection \<open>fgets\<close>

lemma snd_fgets: "snd (fgets n buf s) = after_fgets n s"
  by (simp add: fgets_def Let_def split: stream_end.splits)

lemma length_take_line: "length (take_line n cs) \<le> n"
  by (induction n cs rule: take_line.induct) auto

text \<open>Every line the function works on has \<^verbatim>\<open>PROCFS_LINELEN\<close> characters.\<close>

lemma fgets_length:
  assumes "fgets n buf s = (Some l, s')" and "length buf = n" and "0 < n"
  shows "length l = n"
proof -
  let ?got = "take_line (n - 1) (pending s)"
  from assms(1) have "l = store_line ?got buf"
    by (auto simp: fgets_def Let_def split: if_splits stream_end.splits)
  moreover have "length ?got \<le> n - 1" by (rule length_take_line)
  ultimately show ?thesis using assms(2,3) by (simp add: store_line_def)
qed

lemma take_line_newline:
  "newline \<notin> set xs \<Longrightarrow> length xs < n \<Longrightarrow> take_line n (xs @ newline # ys) = xs @ [newline]"
proof (induction xs arbitrary: n)
  case Nil
  then show ?case by (cases n) auto
next
  case (Cons x xs)
  then show ?case by (cases n) auto
qed

lemma fgets_whole_line:
  assumes "newline \<notin> set xs" and "length xs < n - 1" and "pending s = xs @ newline # ys"
  shows "fgets n buf s = (Some (store_line (xs @ [newline]) buf), s\<lparr>pending := ys\<rparr>)"
proof -
  have "take_line (n - 1) (pending s) = xs @ [newline]"
    using assms by (simp add: take_line_newline)
  then show ?thesis using assms by (simp add: fgets_def after_fgets_def)
qed

lemma fgets_exhausted:
  "pending s = [] \<Longrightarrow> 1 < n \<Longrightarrow> fgets n buf s = (None, s)"
  by (cases "n - 1") (auto simp add: fgets_def after_fgets_def split: stream_end.splits)

lemma take_line_no_newline:
  "newline \<notin> set xs \<Longrightarrow> length xs \<le> n \<Longrightarrow> take_line n xs = xs"
proof (induction xs arbitrary: n)
  case Nil
  then show ?case by (cases n) auto
next
  case (Cons x xs)
  then show ?case by (cases n) auto
qed

lemma take_line_prefix: "take_line n cs @ drop (length (take_line n cs)) cs = cs"
  by (induction n cs rule: take_line.induct) auto

lemma take_line_butlast: "newline \<notin> set (butlast (take_line n cs))"
  by (induction n cs rule: take_line.induct) auto

text \<open>
  What one \<^verbatim>\<open>fgets\<close> call on the line buffer takes from the stream: a prefix of at
  most \<^verbatim>\<open>PROCFS_LINELEN - 1\<close> characters that does not go past the first newline.
\<close>

lemma after_fgets_consumes:
  "\<exists>got. pending s = got @ pending (after_fgets PROCFS_LINELEN s) \<and>
         length got \<le> PROCFS_LINELEN - 1 \<and> newline \<notin> set (butlast got) \<and>
         ending (after_fgets PROCFS_LINELEN s) = ending s"
  by (rule exI [of _ "take_line (PROCFS_LINELEN - 1) (pending s)"])
     (simp add: after_fgets_def take_line_prefix take_line_butlast length_take_line)

subsection \<open>What a call does\<close>

text \<open>
  Since the test on the first line always holds, the first stage ends the call: with 0
  when \<^verbatim>\<open>fgets\<close> returns the null pointer, with \<^verbatim>\<open>-EINVAL\<close> otherwise.
\<close>

lemma read_prefix_eq:
  "read_prefix E line s route =
     (case fgets PROCFS_LINELEN line s of
        (None, s') \<Rightarrow> Some (Return 0, line, s', route)
      | (Some line1, s') \<Rightarrow> Some (Return (- einval E), line1, s', route))"
  using index_check_holds by (simp add: read_prefix_def split: prod.splits option.splits)

lemma netlib_read_ipv6route_eq:
  "netlib_read_ipv6route E line0 s route =
     (case fgets PROCFS_LINELEN line0 s of
        (None, s') \<Rightarrow> Some (0, s', route)
      | (Some line1, s') \<Rightarrow> Some (- einval E, s', route))"
  by (simp add: netlib_read_ipv6route_def read_prefix_eq split: prod.splits option.splits)

text \<open>The call is the first stage and then, if that runs on, the rest of the body.\<close>

lemma netlib_read_ipv6route_stages:
  "netlib_read_ipv6route E line0 s route =
     (case read_prefix E line0 s route of
        None \<Rightarrow> None
      | Some (Return v, _, s1, r1) \<Rightarrow> Some (v, s1, r1)
      | Some (Fallthrough, line1, s1, r1) \<Rightarrow> from_netmask E line1 s1 r1)"
  by (simp add: netlib_read_ipv6route_def from_netmask_def from_router_def
      split: option.splits prod.splits ctl.splits)

text \<open>Each stage returns 0 when its \<^verbatim>\<open>fgets\<close> returns the null pointer.\<close>

lemma each_stage_returns_zero_on_failed_read:
  assumes "fgets PROCFS_LINELEN line s = (None, s')"
  shows "read_prefix E line s route = Some (Return 0, line, s', route)"
    and "read_netmask E line s route = Some (Return 0, line, s', route)"
    and "read_router E line s route = Some (Return 0, line, s', route)"
  using assms by (simp_all add: read_prefix_def read_netmask_def read_router_def)

lemma empty_stream_returns_zero:
  "netlib_read_ipv6route E line0 \<lparr>pending = [], ending = AtEOF\<rparr> route =
     Some (0, \<lparr>pending = [], ending = AtEOF\<rparr>, route)"
  by (simp add: netlib_read_ipv6route_eq fgets_exhausted PROCFS_LINELEN_def)

text \<open>
  The statements after the test on the first line, run on the example group with the
  first line already in the buffer: they convert the three addresses and fill the record.
\<close>

lemma later_stages_fill_the_record:
  "(case convert_prefix demo_platform (store_line target_line stale_line)
           \<lparr>pending = netmask_line @ router_line, ending = AtEOF\<rparr> zero_route of
      Some (Fallthrough, l1, s1, r1) \<Rightarrow>
        (case read_netmask demo_platform l1 s1 r1 of
           Some (Fallthrough, l2, s2, r2) \<Rightarrow>
             (case read_router demo_platform l2 s2 r2 of
                Some (Fallthrough, l3, s3, r3) \<Rightarrow> Some (s3, r3)
              | _ \<Rightarrow> None)
         | _ \<Rightarrow> None)
    | _ \<Rightarrow> None) =
   Some (\<lparr>pending = [], ending = AtEOF\<rparr>,
         \<lparr>prefix = 0x20010db8000000000000000000000000,
          netmask = 0xffffffffffffffff0000000000000000,
          router = 0xfe800000000000000000000000000001\<rparr>)"
  by code_simp

lemma convert_prefix_stream:
  "convert_prefix E line s route = Some (c, l, s', r') \<Longrightarrow> s' = s"
  by (auto simp add: convert_prefix_def split: option.splits prod.splits if_splits)

lemma convert_netmask_stream:
  "convert_netmask E line s route = Some (c, l, s', r') \<Longrightarrow> s' = s"
  by (auto simp add: convert_netmask_def split: option.splits prod.splits if_splits)

lemma convert_router_stream:
  "convert_router E line s route = Some (c, l, s', r') \<Longrightarrow> s' = s"
  by (auto simp add: convert_router_def split: option.splits prod.splits if_splits)

lemma read_prefix_stream:
  "read_prefix E line s route = Some (c, l, s', r') \<Longrightarrow> s' = after_fgets PROCFS_LINELEN s"
  using snd_fgets [of PROCFS_LINELEN line s]
  by (auto simp add: read_prefix_def split: option.splits prod.splits if_splits
      dest: convert_prefix_stream)

lemma read_netmask_stream:
  "read_netmask E line s route = Some (c, l, s', r') \<Longrightarrow> s' = after_fgets PROCFS_LINELEN s"
  using snd_fgets [of PROCFS_LINELEN line s]
  by (auto simp add: read_netmask_def split: option.splits prod.splits if_splits
      dest: convert_netmask_stream)

lemma read_router_stream:
  "read_router E line s route = Some (c, l, s', r') \<Longrightarrow> s' = after_fgets PROCFS_LINELEN s"
  using snd_fgets [of PROCFS_LINELEN line s]
  by (auto simp add: read_router_def split: option.splits prod.splits if_splits
      dest: convert_router_stream)

lemma from_router_stream:
  "from_router E line s route = Some (v, s', r') \<Longrightarrow> s' = after_fgets PROCFS_LINELEN s"
  by (auto simp add: from_router_def split: option.splits prod.splits ctl.splits
      dest: read_router_stream)




subsection \<open>The properties of the specification\<close>

text \<open>
  C1. Called on a stream that holds a group in the documented layout (target line opened
  by the digits of the index, netmask and router lines opened by a space, the addresses at
  column offset 15), the function reads the first line and returns \<^verbatim>\<open>-EINVAL\<close>: the
  record is as the caller passed it and the netmask and router lines are still in the
  stream. It does not return the size of the record.
\<close>

theorem well_formed_group_rejected:
  "netlib_read_ipv6route E line0
     \<lparr>pending = target_line @ netmask_line @ router_line, ending = AtEOF\<rparr> route =
   Some (- einval E, \<lparr>pending = netmask_line @ router_line, ending = AtEOF\<rparr>, route)"
proof -
  let ?s = "\<lparr>pending = target_line @ netmask_line @ router_line, ending = AtEOF\<rparr>"
  have "fgets PROCFS_LINELEN line0 ?s =
          (Some (store_line (''1234. target:  2001:db8::'' @ [newline]) line0),
           ?s\<lparr>pending := netmask_line @ router_line\<rparr>)"
    by (rule fgets_whole_line) (simp_all add: PROCFS_LINELEN_def target_line_def)
  then show ?thesis by (simp add: netlib_read_ipv6route_eq)
qed

text \<open>
  C2. Whatever character opens the first line read, a decimal digit included, the first
  stage returns \<^verbatim>\<open>-EINVAL\<close> with the record untouched, and so does the call: no
  first line passes the test and none reaches the extraction of the address.
\<close>

theorem index_line_always_rejected:
  "fgets PROCFS_LINELEN line0 s = (Some line1, s') \<Longrightarrow>
     read_prefix E line0 s route = Some (Return (- einval E), line1, s', route) \<and>
     netlib_read_ipv6route E line0 s route = Some (- einval E, s', route)"
  by (simp add: read_prefix_eq netlib_read_ipv6route_eq)

theorem index_line_always_rejected_witness:
  "fgets PROCFS_LINELEN stale_line \<lparr>pending = ''7. '' @ [newline], ending = AtEOF\<rparr> =
     (Some (store_line (''7. '' @ [newline]) stale_line), \<lparr>pending = [], ending = AtEOF\<rparr>) \<and>
   store_line (''7. '' @ [newline]) stale_line ! 0 = CHR ''7'' \<and>
   read_prefix demo_platform stale_line
       \<lparr>pending = ''7. '' @ [newline], ending = AtEOF\<rparr> zero_route =
     Some (Return (- 22), store_line (''7. '' @ [newline]) stale_line,
           \<lparr>pending = [], ending = AtEOF\<rparr>, zero_route) \<and>
   netlib_read_ipv6route demo_platform stale_line
       \<lparr>pending = ''7. '' @ [newline], ending = AtEOF\<rparr> zero_route =
     Some (- 22, \<lparr>pending = [], ending = AtEOF\<rparr>, zero_route)"
proof -
  let ?s = "\<lparr>pending = ''7. '' @ [newline], ending = AtEOF\<rparr>"
  have "fgets PROCFS_LINELEN stale_line ?s =
     (Some (store_line (''7. '' @ [newline]) stale_line), ?s\<lparr>pending := []\<rparr>)"
    by (rule fgets_whole_line) (simp_all add: PROCFS_LINELEN_def)
  then have h: "fgets PROCFS_LINELEN stale_line ?s =
     (Some (store_line (''7. '' @ [newline]) stale_line), \<lparr>pending = [], ending = AtEOF\<rparr>)"
    by simp
  have e: "einval demo_platform = 22" by (simp add: demo_platform_def)
  from index_line_always_rejected [OF h, where E = demo_platform and route = zero_route] h e
  show ?thesis by (simp add: store_line_def)
qed




text \<open>
  C4. Called on a stream that holds a target line and nothing after it, the function
  returns \<^verbatim>\<open>-EINVAL\<close> once it has read that line; it does not go on to the second
  read, where the end of the stream would make it return 0.
\<close>

theorem target_only_stream_rejected:
  "netlib_read_ipv6route E line0 \<lparr>pending = target_line, ending = AtEOF\<rparr> route =
     Some (- einval E, \<lparr>pending = [], ending = AtEOF\<rparr>, route)"
proof -
  let ?s = "\<lparr>pending = target_line, ending = AtEOF\<rparr>"
  have "fgets PROCFS_LINELEN line0 ?s =
          (Some (store_line (''1234. target:  2001:db8::'' @ [newline]) line0),
           ?s\<lparr>pending := []\<rparr>)"
    by (rule fgets_whole_line) (simp_all add: PROCFS_LINELEN_def target_line_def)
  then show ?thesis by (simp add: netlib_read_ipv6route_eq)
qed

text \<open>
  C5. On a stream whose underlying read reports an I/O error during the first line read,
  before a newline and before the buffer is full, the call returns 0 with the record as it
  was. That is the value it returns at the end of the data: the same stream with the error
  replaced by the end of file gives 0 as well, so the value returned does not tell a read
  failure from the end of the stream.
\<close>

theorem read_error_returns_zero:
  assumes "ending s = ReadError" and "newline \<notin> set (pending s)"
    and "length (pending s) < PROCFS_LINELEN - 1"
  shows "netlib_read_ipv6route E line0 s route = Some (0, s\<lparr>pending := []\<rparr>, route) \<and>
         netlib_read_ipv6route E line0 (s\<lparr>pending := [], ending := AtEOF\<rparr>) route =
           Some (0, s\<lparr>pending := [], ending := AtEOF\<rparr>, route)"
proof -
  have t: "take_line (PROCFS_LINELEN - 1) (pending s) = pending s"
    using assms by (simp add: take_line_no_newline)
  have l: "pending s = [] \<or> last (pending s) \<noteq> newline"
  proof (cases "pending s = []")
    case False
    then have "last (pending s) \<in> set (pending s)" by (rule last_in_set)
    with assms(2) show ?thesis by auto
  qed simp
  have "fgets PROCFS_LINELEN line0 s = (None, s\<lparr>pending := []\<rparr>)"
    using assms(1,3) l unfolding fgets_def after_fgets_def t by simp
  moreover have "fgets PROCFS_LINELEN line0 (s\<lparr>pending := [], ending := AtEOF\<rparr>) =
                   (None, s\<lparr>pending := [], ending := AtEOF\<rparr>)"
    by (simp add: fgets_exhausted PROCFS_LINELEN_def)
  ultimately show ?thesis by (simp add: netlib_read_ipv6route_eq)
qed

theorem read_error_returns_zero_witness:
  "ending \<lparr>pending = [], ending = ReadError\<rparr> = ReadError \<and>
   newline \<notin> set (pending \<lparr>pending = [], ending = ReadError\<rparr>) \<and>
   length (pending \<lparr>pending = [], ending = ReadError\<rparr>) < PROCFS_LINELEN - 1 \<and>
   netlib_read_ipv6route demo_platform stale_line \<lparr>pending = [], ending = ReadError\<rparr> zero_route =
     Some (0, \<lparr>pending = [], ending = ReadError\<rparr>, zero_route) \<and>
   netlib_read_ipv6route demo_platform stale_line \<lparr>pending = [], ending = AtEOF\<rparr> zero_route =
     Some (0, \<lparr>pending = [], ending = AtEOF\<rparr>, zero_route)"
proof -
  let ?s = "\<lparr>pending = [], ending = ReadError\<rparr>"
  have h1: "ending ?s = ReadError" by simp
  have h2: "newline \<notin> set (pending ?s)" by simp
  have h3: "length (pending ?s) < PROCFS_LINELEN - 1" by (simp add: PROCFS_LINELEN_def)
  from read_error_returns_zero [OF h1 h2 h3, where E = demo_platform and ?line0.0 = stale_line
      and route = zero_route] h1 h2 h3
  show ?thesis by simp
qed

text \<open>
  C6. In the second and in the third stage, a line just read whose first character is
  not a space makes the stage return \<^verbatim>\<open>-EINVAL\<close> with the line as
  \<^verbatim>\<open>fgets\<close> left it and the record as it was: no NUL is stored, no address is
  cut out or converted. A line whose first character is a space passes: the stage goes
  on with the conversion of that line.
\<close>

theorem continuation_marker_checked:
  assumes "fgets PROCFS_LINELEN line s = (Some line1, s')"
  shows "(line1 ! 0 \<noteq> CHR '' '' \<longrightarrow>
            read_netmask E line s route = Some (Return (- einval E), line1, s', route) \<and>
            read_router E line s route = Some (Return (- einval E), line1, s', route)) \<and>
         (line1 ! 0 = CHR '' '' \<longrightarrow>
            read_netmask E line s route = convert_netmask E line1 s' route \<and>
            read_router E line s route = convert_router E line1 s' route)"
  using assms by (simp add: read_netmask_def read_router_def cval_eq_space)

theorem continuation_marker_checked_witness:
  "fgets PROCFS_LINELEN stale_line \<lparr>pending = target_line, ending = AtEOF\<rparr> =
     (Some (store_line target_line stale_line), \<lparr>pending = [], ending = AtEOF\<rparr>) \<and>
   store_line target_line stale_line ! 0 \<noteq> CHR '' '' \<and>
   read_netmask demo_platform stale_line \<lparr>pending = target_line, ending = AtEOF\<rparr> zero_route =
     Some (Return (- 22), store_line target_line stale_line,
           \<lparr>pending = [], ending = AtEOF\<rparr>, zero_route) \<and>
   read_router demo_platform stale_line \<lparr>pending = target_line, ending = AtEOF\<rparr> zero_route =
     Some (Return (- 22), store_line target_line stale_line,
           \<lparr>pending = [], ending = AtEOF\<rparr>, zero_route) \<and>
   fgets PROCFS_LINELEN stale_line \<lparr>pending = router_line, ending = AtEOF\<rparr> =
     (Some (store_line router_line stale_line), \<lparr>pending = [], ending = AtEOF\<rparr>) \<and>
   store_line router_line stale_line ! 0 = CHR '' '' \<and>
   read_netmask demo_platform stale_line \<lparr>pending = router_line, ending = AtEOF\<rparr> zero_route =
     convert_netmask demo_platform (store_line router_line stale_line)
       \<lparr>pending = [], ending = AtEOF\<rparr> zero_route \<and>
   read_router demo_platform stale_line \<lparr>pending = router_line, ending = AtEOF\<rparr> zero_route =
     convert_router demo_platform (store_line router_line stale_line)
       \<lparr>pending = [], ending = AtEOF\<rparr> zero_route"
proof -
  let ?t = "\<lparr>pending = target_line, ending = AtEOF\<rparr>"
  let ?r = "\<lparr>pending = router_line, ending = AtEOF\<rparr>"
  let ?e = "\<lparr>pending = [], ending = AtEOF\<rparr>"
  have "fgets PROCFS_LINELEN stale_line ?t =
          (Some (store_line (''1234. target:  2001:db8::'' @ [newline]) stale_line),
           ?t\<lparr>pending := []\<rparr>)"
    by (rule fgets_whole_line) (simp_all add: PROCFS_LINELEN_def target_line_def)
  then have ht: "fgets PROCFS_LINELEN stale_line ?t = (Some (store_line target_line stale_line), ?e)"
    by (simp add: target_line_def)
  have "fgets PROCFS_LINELEN stale_line ?r =
          (Some (store_line (''      router:  fe80::1'' @ [newline]) stale_line),
           ?r\<lparr>pending := []\<rparr>)"
    by (rule fgets_whole_line) (simp_all add: PROCFS_LINELEN_def router_line_def)
  then have hr: "fgets PROCFS_LINELEN stale_line ?r = (Some (store_line router_line stale_line), ?e)"
    by (simp add: router_line_def)
  have ct: "store_line target_line stale_line ! 0 \<noteq> CHR '' ''"
    by (simp add: store_line_def target_line_def)
  have cr: "store_line router_line stale_line ! 0 = CHR '' ''"
    by (simp add: store_line_def router_line_def)
  have e: "einval demo_platform = 22" by (simp add: demo_platform_def)
  from continuation_marker_checked [OF ht, where E = demo_platform and route = zero_route]
       continuation_marker_checked [OF hr, where E = demo_platform and route = zero_route]
       ht hr ct cr e
  show ?thesis by simp
qed

text \<open>
  C7. In each stage, on a line of \<^verbatim>\<open>PROCFS_LINELEN\<close> characters, the address
  text is cut out, and the stage ends as \<^verbatim>\<open>inet_pton\<close> decides: when it returns 0
  (no match) the stage returns \<^verbatim>\<open>-EINVAL\<close>; when it returns a positive value the
  field of the stage (prefix, netmask, router) holds the 128 bits
  \<^verbatim>\<open>inet_pton\<close> stored and the function runs on past the stage.
\<close>

theorem conversion_outcome:
  assumes "length line = PROCFS_LINELEN"
  shows "\<exists>line' addr. addr_token E line = Some (line', addr) \<and>
     (case inet_pton6 E addr (prefix route) of (ret, dst) \<Rightarrow>
        (ret = 0 \<longrightarrow> convert_prefix E line s route =
                       Some (Return (- einval E), line', s, route\<lparr>prefix := dst\<rparr>)) \<and>
        (0 < ret \<longrightarrow> convert_prefix E line s route =
                       Some (Fallthrough, line', s, route\<lparr>prefix := dst\<rparr>))) \<and>
     (case inet_pton6 E addr (netmask route) of (ret, dst) \<Rightarrow>
        (ret = 0 \<longrightarrow> convert_netmask E line s route =
                       Some (Return (- einval E), line', s, route\<lparr>netmask := dst\<rparr>)) \<and>
        (0 < ret \<longrightarrow> convert_netmask E line s route =
                       Some (Fallthrough, line', s, route\<lparr>netmask := dst\<rparr>))) \<and>
     (case inet_pton6 E addr (router route) of (ret, dst) \<Rightarrow>
        (ret = 0 \<longrightarrow> convert_router E line s route =
                       Some (Return (- einval E), line', s, route\<lparr>router := dst\<rparr>)) \<and>
        (0 < ret \<longrightarrow> convert_router E line s route =
                       Some (Fallthrough, line', s, route\<lparr>router := dst\<rparr>)))"
proof -
  from scan_addr_finds [of ADDR_OFFSET "PROCFS_LINELEN - 1" "line[PROCFS_LINELEN - 1 := NUL]" E]
  obtain k where "scan_addr E (line[PROCFS_LINELEN - 1 := NUL]) ADDR_OFFSET = Some k"
    using assms by (auto simp add: ADDR_OFFSET_def PROCFS_LINELEN_def not_addr_char_NUL)
  then obtain line' addr where t: "addr_token E line = Some (line', addr)"
    by (simp add: addr_token_def set_nul_terminator_def)
  have p: "case inet_pton6 E addr (prefix route) of (ret, dst) \<Rightarrow>
        (ret = 0 \<longrightarrow> convert_prefix E line s route =
                       Some (Return (- einval E), line', s, route\<lparr>prefix := dst\<rparr>)) \<and>
        (0 < ret \<longrightarrow> convert_prefix E line s route =
                       Some (Fallthrough, line', s, route\<lparr>prefix := dst\<rparr>))"
    using t by (simp add: convert_prefix_def split: prod.splits)
  have n: "case inet_pton6 E addr (netmask route) of (ret, dst) \<Rightarrow>
        (ret = 0 \<longrightarrow> convert_netmask E line s route =
                       Some (Return (- einval E), line', s, route\<lparr>netmask := dst\<rparr>)) \<and>
        (0 < ret \<longrightarrow> convert_netmask E line s route =
                       Some (Fallthrough, line', s, route\<lparr>netmask := dst\<rparr>))"
    using t by (simp add: convert_netmask_def split: prod.splits)
  have r: "case inet_pton6 E addr (router route) of (ret, dst) \<Rightarrow>
        (ret = 0 \<longrightarrow> convert_router E line s route =
                       Some (Return (- einval E), line', s, route\<lparr>router := dst\<rparr>)) \<and>
        (0 < ret \<longrightarrow> convert_router E line s route =
                       Some (Fallthrough, line', s, route\<lparr>router := dst\<rparr>))"
    using t by (simp add: convert_router_def split: prod.splits)
  from t p n r show ?thesis by (intro exI conjI)
qed

theorem conversion_outcome_witness:
  "length (store_line target_line stale_line) = PROCFS_LINELEN \<and>
   inet_pton6 demo_platform ''2001:db8::'' 0 = (1, 0x20010db8000000000000000000000000) \<and>
   convert_prefix demo_platform (store_line target_line stale_line)
       \<lparr>pending = netmask_line, ending = AtEOF\<rparr> zero_route =
     Some (Fallthrough, (store_line target_line stale_line)[25 := NUL, 57 := NUL],
           \<lparr>pending = netmask_line, ending = AtEOF\<rparr>,
           zero_route\<lparr>prefix := 0x20010db8000000000000000000000000\<rparr>) \<and>
   length stale_line = PROCFS_LINELEN \<and>
   inet_pton6 demo_platform '''' 0 = (0, 0) \<and>
   convert_prefix demo_platform stale_line \<lparr>pending = netmask_line, ending = AtEOF\<rparr> zero_route =
     Some (Return (- 22), stale_line[15 := NUL, 57 := NUL],
           \<lparr>pending = netmask_line, ending = AtEOF\<rparr>, zero_route\<lparr>prefix := 0\<rparr>)"
proof -
  let ?s = "\<lparr>pending = netmask_line, ending = AtEOF\<rparr>"
  let ?A = "store_line target_line stale_line"
  have la: "length ?A = PROCFS_LINELEN" by code_simp
  have lb: "length stale_line = PROCFS_LINELEN" by code_simp
  have ta: "addr_token demo_platform ?A = Some (?A[25 := NUL, 57 := NUL], ''2001:db8::'')"
    by code_simp
  have tb: "addr_token demo_platform stale_line = Some (stale_line[15 := NUL, 57 := NUL], '''')"
    by code_simp
  have pa: "inet_pton6 demo_platform ''2001:db8::'' 0 = (1, 0x20010db8000000000000000000000000)"
    by (simp add: demo_platform_def demo_pton_def)
  have pb: "inet_pton6 demo_platform '''' 0 = (0, 0)"
    by (simp add: demo_platform_def demo_pton_def)
  have z: "prefix zero_route = 0" "einval demo_platform = 22"
    by (simp_all add: zero_route_def demo_platform_def)
  from conversion_outcome [OF la, where E = demo_platform and route = zero_route and s = ?s]
       ta pa z
  have a: "convert_prefix demo_platform ?A ?s zero_route =
     Some (Fallthrough, ?A[25 := NUL, 57 := NUL], ?s,
           zero_route\<lparr>prefix := 0x20010db8000000000000000000000000\<rparr>)"
    by auto
  from conversion_outcome [OF lb, where E = demo_platform and route = zero_route and s = ?s]
       tb pb z
  have b: "convert_prefix demo_platform stale_line ?s zero_route =
     Some (Return (- 22), stale_line[15 := NUL, 57 := NUL], ?s, zero_route\<lparr>prefix := 0\<rparr>)"
    by auto
  from la lb pa pb a b show ?thesis by simp
qed

text \<open>
  C8. Called at offset \<open>off\<close> of a buffer that holds a NUL at or after \<open>off\<close>,
  \<^verbatim>\<open>set_nul_terminator\<close> writes a NUL at the first position \<open>k\<close> at or after
  \<open>off\<close> whose character is not a hexadecimal digit or a colon: every character from
  \<open>off\<close> up to \<open>k\<close> is one, the character at \<open>k\<close> is not; the buffer keeps its
  length and every character at a position other than \<open>k\<close>.
\<close>

theorem set_nul_terminator_first_non_addr_char:
  assumes "off \<le> j" and "j < length buf" and "buf ! j = NUL"
  shows "\<exists>k buf'. off \<le> k \<and> k \<le> j \<and>
           \<not> hex_digit_or_colon (buf ! k) \<and>
           (\<forall>i. off \<le> i \<and> i < k \<longrightarrow> hex_digit_or_colon (buf ! i)) \<and>
           set_nul_terminator E buf off = Some buf' \<and>
           length buf' = length buf \<and> buf' ! k = NUL \<and>
           (\<forall>i. i < length buf \<and> i \<noteq> k \<longrightarrow> buf' ! i = buf ! i)"
proof -
  from assms have "\<not> addr_char E (buf ! j)" by (simp add: not_addr_char_NUL)
  with assms obtain k where k: "k \<le> j" "scan_addr E buf off = Some k"
    using scan_addr_finds by blast
  from scan_addr_Some [OF k(2)] have p:
    "off \<le> k" "k < length buf" "\<not> hex_digit_or_colon (buf ! k)"
    "\<forall>i. off \<le> i \<and> i < k \<longrightarrow> hex_digit_or_colon (buf ! i)"
    by (simp_all add: addr_char_iff)
  have "set_nul_terminator E buf off = Some (buf[k := NUL])"
    using k by (simp add: set_nul_terminator_def)
  with k p show ?thesis by auto
qed

theorem set_nul_terminator_first_non_addr_char_witness:
  "(15::nat) \<le> 26 \<and> 26 < length (target_line @ [NUL]) \<and> (target_line @ [NUL]) ! 26 = NUL \<and>
   (\<exists>k buf'. 15 \<le> k \<and> k \<le> 26 \<and>
      \<not> hex_digit_or_colon ((target_line @ [NUL]) ! k) \<and>
      (\<forall>i. 15 \<le> i \<and> i < k \<longrightarrow> hex_digit_or_colon ((target_line @ [NUL]) ! i)) \<and>
      set_nul_terminator demo_platform (target_line @ [NUL]) 15 = Some buf' \<and>
      length buf' = length (target_line @ [NUL]) \<and> buf' ! k = NUL \<and>
      (\<forall>i. i < length (target_line @ [NUL]) \<and> i \<noteq> k \<longrightarrow> buf' ! i = (target_line @ [NUL]) ! i))"
proof -
  have h1: "(15::nat) \<le> 26" by simp
  have h2: "26 < length (target_line @ [NUL])" by (simp add: target_line_def)
  have h3: "(target_line @ [NUL]) ! 26 = NUL" by (simp add: target_line_def)
  from set_nul_terminator_first_non_addr_char [OF h1 h2 h3, of demo_platform] h1 h2 h3
  show ?thesis by blast
qed

text \<open>
  C9. On a line buffer of \<^verbatim>\<open>PROCFS_LINELEN\<close> characters, whatever it holds, once
  the NUL is stored in its last element the scan from \<^verbatim>\<open>ADDR_OFFSET\<close> stops at
  an index between \<^verbatim>\<open>ADDR_OFFSET\<close> and \<^verbatim>\<open>PROCFS_LINELEN - 1\<close>, and
  \<^verbatim>\<open>set_nul_terminator\<close> writes its NUL there, inside the buffer.
\<close>

theorem scan_stops_within_line:
  assumes "length line = PROCFS_LINELEN"
  shows "\<exists>k. ADDR_OFFSET \<le> k \<and> k \<le> PROCFS_LINELEN - 1 \<and>
           scan_addr E (line[PROCFS_LINELEN - 1 := NUL]) ADDR_OFFSET = Some k \<and>
           set_nul_terminator E (line[PROCFS_LINELEN - 1 := NUL]) ADDR_OFFSET =
             Some (line[PROCFS_LINELEN - 1 := NUL, k := NUL])"
proof -
  let ?buf = "line[PROCFS_LINELEN - 1 := NUL]"
  have "ADDR_OFFSET \<le> PROCFS_LINELEN - 1" "PROCFS_LINELEN - 1 < length ?buf"
    using assms by (simp_all add: ADDR_OFFSET_def PROCFS_LINELEN_def)
  moreover from this have "\<not> addr_char E (?buf ! (PROCFS_LINELEN - 1))"
    by (simp add: not_addr_char_NUL)
  ultimately obtain k where k: "k \<le> PROCFS_LINELEN - 1"
      "scan_addr E ?buf ADDR_OFFSET = Some k"
    using scan_addr_finds by blast
  from scan_addr_Some [OF k(2)] have "ADDR_OFFSET \<le> k" by simp
  with k show ?thesis by (simp add: set_nul_terminator_def)
qed

theorem scan_stops_within_line_witness:
  "length stale_line = PROCFS_LINELEN \<and>
   (\<exists>k. ADDR_OFFSET \<le> k \<and> k \<le> PROCFS_LINELEN - 1 \<and>
      scan_addr demo_platform (stale_line[PROCFS_LINELEN - 1 := NUL]) ADDR_OFFSET = Some k \<and>
      set_nul_terminator demo_platform (stale_line[PROCFS_LINELEN - 1 := NUL]) ADDR_OFFSET =
        Some (stale_line[PROCFS_LINELEN - 1 := NUL, k := NUL]))"
proof -
  have h: "length stale_line = PROCFS_LINELEN"
    by (simp add: stale_line_def PROCFS_LINELEN_def)
  from scan_stops_within_line [OF h, of demo_platform] h show ?thesis by blast
qed

text \<open>
  Two calls that return in the first stage and have not read one line. On a line of 70
  characters the call takes the 57 characters that fit the buffer and returns: the 13
  that follow and the newline, the end of that same line, are left in the stream, where
  the text after the line is empty. On an empty stream the call returns having read
  nothing.
\<close>

theorem long_line_read_in_part:
  "map_option fst (read_prefix demo_platform stale_line
       \<lparr>pending = long_line, ending = AtEOF\<rparr> zero_route) = Some (Return (- 22)) \<and>
   netlib_read_ipv6route demo_platform stale_line
       \<lparr>pending = long_line, ending = AtEOF\<rparr> zero_route =
     Some (- 22, \<lparr>pending = replicate 13 CHR ''7'' @ [newline], ending = AtEOF\<rparr>, zero_route) \<and>
   rest_after_line long_line = [] \<and>
   replicate 13 CHR ''7'' @ [newline] \<noteq> rest_after_line long_line \<and>
   map_option fst (read_prefix demo_platform stale_line
       \<lparr>pending = [], ending = AtEOF\<rparr> zero_route) = Some (Return 0) \<and>
   netlib_read_ipv6route demo_platform stale_line
       \<lparr>pending = [], ending = AtEOF\<rparr> zero_route =
     Some (0, \<lparr>pending = [], ending = AtEOF\<rparr>, zero_route)"
  by code_simp

text \<open>
  C10, as the code has it. Each stage makes one line read, one \<^verbatim>\<open>fgets\<close> call: it
  takes from the stream at most \<^verbatim>\<open>PROCFS_LINELEN - 1\<close> characters, none past the
  first newline and none at the end of the data, and leaves everything after them in the
  stream, whatever way the stage ends. A call that returns in the first stage leaves the
  stream after one line read; the body from the second stage on leaves it after one line
  read when the second stage returns and after two when the third ends it; the third stage
  leaves it after one. So a call makes at most three line reads.
\<close>

theorem each_stage_makes_one_line_read:
  "(\<exists>got. pending s = got @ pending (after_fgets PROCFS_LINELEN s) \<and>
          length got \<le> PROCFS_LINELEN - 1 \<and> newline \<notin> set (butlast got) \<and>
          ending (after_fgets PROCFS_LINELEN s) = ending s) \<and>
   (read_prefix E line s route = Some (c1, l1, s1, r1) \<longrightarrow> s1 = after_fgets PROCFS_LINELEN s) \<and>
   (read_netmask E line s route = Some (c2, l2, s2, r2) \<longrightarrow> s2 = after_fgets PROCFS_LINELEN s) \<and>
   (read_router E line s route = Some (c3, l3, s3, r3) \<longrightarrow> s3 = after_fgets PROCFS_LINELEN s) \<and>
   (read_prefix E line s route = Some (Return v1, l1, s1, r1) \<longrightarrow>
      netlib_read_ipv6route E line s route = Some (v1, after_fgets PROCFS_LINELEN s, r1)) \<and>
   (read_netmask E line s route = Some (Return v2, l2, s2, r2) \<longrightarrow>
      from_netmask E line s route = Some (v2, after_fgets PROCFS_LINELEN s, r2)) \<and>
   (read_netmask E line s route = Some (Fallthrough, l2, s2, r2) \<and>
    from_netmask E line s route = Some (v3, s3', r3') \<longrightarrow>
      s3' = after_fgets PROCFS_LINELEN (after_fgets PROCFS_LINELEN s)) \<and>
   (from_router E line s route = Some (v4, s4, r4) \<longrightarrow> s4 = after_fgets PROCFS_LINELEN s) \<and>
   (netlib_read_ipv6route E line s route = Some (v, s', route') \<longrightarrow>
      s' = after_fgets PROCFS_LINELEN s \<or>
      s' = after_fgets PROCFS_LINELEN (after_fgets PROCFS_LINELEN s) \<or>
      s' = after_fgets PROCFS_LINELEN (after_fgets PROCFS_LINELEN (after_fgets PROCFS_LINELEN s)))"
proof -
  have p: "read_prefix E line s route = Some (c1, l1, s1, r1) \<longrightarrow> s1 = after_fgets PROCFS_LINELEN s"
    by (rule impI) (rule read_prefix_stream)
  have n: "read_netmask E line s route = Some (c2, l2, s2, r2) \<longrightarrow> s2 = after_fgets PROCFS_LINELEN s"
    by (rule impI) (rule read_netmask_stream)
  have r: "read_router E line s route = Some (c3, l3, s3, r3) \<longrightarrow> s3 = after_fgets PROCFS_LINELEN s"
    by (rule impI) (rule read_router_stream)
  have p1: "read_prefix E line s route = Some (Return v1, l1, s1, r1) \<longrightarrow>
      netlib_read_ipv6route E line s route = Some (v1, after_fgets PROCFS_LINELEN s, r1)"
    by (auto simp add: netlib_read_ipv6route_stages dest: read_prefix_stream)
  have n1: "read_netmask E line s route = Some (Return v2, l2, s2, r2) \<longrightarrow>
      from_netmask E line s route = Some (v2, after_fgets PROCFS_LINELEN s, r2)"
    by (auto simp add: from_netmask_def dest: read_netmask_stream)
  have n2: "read_netmask E line s route = Some (Fallthrough, l2, s2, r2) \<and>
    from_netmask E line s route = Some (v3, s3', r3') \<longrightarrow>
      s3' = after_fgets PROCFS_LINELEN (after_fgets PROCFS_LINELEN s)"
  proof (intro impI, elim conjE)
    assume a: "read_netmask E line s route = Some (Fallthrough, l2, s2, r2)"
      and b: "from_netmask E line s route = Some (v3, s3', r3')"
    from a have "s2 = after_fgets PROCFS_LINELEN s" by (rule read_netmask_stream)
    moreover from a b have "from_router E l2 s2 r2 = Some (v3, s3', r3')"
      by (simp add: from_netmask_def)
    then have "s3' = after_fgets PROCFS_LINELEN s2" by (rule from_router_stream)
    ultimately show "s3' = after_fgets PROCFS_LINELEN (after_fgets PROCFS_LINELEN s)" by simp
  qed
  have r1: "from_router E line s route = Some (v4, s4, r4) \<longrightarrow> s4 = after_fgets PROCFS_LINELEN s"
    by (rule impI) (rule from_router_stream)
  have "s' = after_fgets PROCFS_LINELEN s \<or>
      s' = after_fgets PROCFS_LINELEN (after_fgets PROCFS_LINELEN s) \<or>
      s' = after_fgets PROCFS_LINELEN (after_fgets PROCFS_LINELEN (after_fgets PROCFS_LINELEN s))"
    if call: "netlib_read_ipv6route E line s route = Some (v, s', route')"
  proof -
    from call obtain c l sa ra where
      q: "read_prefix E line s route = Some (c, l, sa, ra)"
      by (auto simp add: netlib_read_ipv6route_stages split: option.splits)
    then have sa: "sa = after_fgets PROCFS_LINELEN s" by (rule read_prefix_stream)
    show ?thesis
    proof (cases c)
      case (Return x)
      with call q sa show ?thesis by (simp add: netlib_read_ipv6route_stages)
    next
      case Fallthrough
      with call q have t: "from_netmask E l sa ra = Some (v, s', route')"
        by (simp add: netlib_read_ipv6route_stages)
      then obtain c' l' sb rb where
        m: "read_netmask E l sa ra = Some (c', l', sb, rb)"
        by (auto simp add: from_netmask_def split: option.splits)
      then have sb: "sb = after_fgets PROCFS_LINELEN sa" by (rule read_netmask_stream)
      show ?thesis
      proof (cases c')
        case (Return x)
        with t m sa sb show ?thesis by (simp add: from_netmask_def)
      next
        case f: Fallthrough
        with t m have "from_router E l' sb rb = Some (v, s', route')"
          by (simp add: from_netmask_def)
        then have "s' = after_fgets PROCFS_LINELEN sb" by (rule from_router_stream)
        with sa sb show ?thesis by simp
      qed
    qed
  qed
  then have whole: "netlib_read_ipv6route E line s route = Some (v, s', route') \<longrightarrow>
      s' = after_fgets PROCFS_LINELEN s \<or>
      s' = after_fgets PROCFS_LINELEN (after_fgets PROCFS_LINELEN s) \<or>
      s' = after_fgets PROCFS_LINELEN (after_fgets PROCFS_LINELEN (after_fgets PROCFS_LINELEN s))"
    by (rule impI)
  from after_fgets_consumes [of s] p n r p1 n1 n2 r1 whole show ?thesis by (intro conjI)
qed

theorem each_stage_makes_one_line_read_witness:
  "netlib_read_ipv6route demo_platform stale_line
       \<lparr>pending = netmask_line @ router_line, ending = AtEOF\<rparr> zero_route =
     Some (- 22, after_fgets PROCFS_LINELEN
                   \<lparr>pending = netmask_line @ router_line, ending = AtEOF\<rparr>, zero_route) \<and>
   after_fgets PROCFS_LINELEN \<lparr>pending = netmask_line @ router_line, ending = AtEOF\<rparr> =
     \<lparr>pending = router_line, ending = AtEOF\<rparr> \<and>
   (\<exists>r. from_netmask demo_platform stale_line
           \<lparr>pending = netmask_line @ router_line, ending = AtEOF\<rparr> zero_route =
         Some (sizeof_route,
               after_fgets PROCFS_LINELEN (after_fgets PROCFS_LINELEN
                 \<lparr>pending = netmask_line @ router_line, ending = AtEOF\<rparr>), r)) \<and>
   after_fgets PROCFS_LINELEN (after_fgets PROCFS_LINELEN
       \<lparr>pending = netmask_line @ router_line, ending = AtEOF\<rparr>) =
     \<lparr>pending = [], ending = AtEOF\<rparr> \<and>
   (\<exists>r. from_router demo_platform stale_line
           \<lparr>pending = netmask_line @ router_line, ending = AtEOF\<rparr> zero_route =
         Some (sizeof_route,
               after_fgets PROCFS_LINELEN
                 \<lparr>pending = netmask_line @ router_line, ending = AtEOF\<rparr>, r)) \<and>
   from_netmask demo_platform stale_line
       \<lparr>pending = target_line @ netmask_line, ending = AtEOF\<rparr> zero_route =
     Some (- 22, after_fgets PROCFS_LINELEN
                   \<lparr>pending = target_line @ netmask_line, ending = AtEOF\<rparr>, zero_route) \<and>
   after_fgets PROCFS_LINELEN \<lparr>pending = target_line @ netmask_line, ending = AtEOF\<rparr> =
     \<lparr>pending = netmask_line, ending = AtEOF\<rparr>"
proof -
  let ?s = "\<lparr>pending = netmask_line @ router_line, ending = AtEOF\<rparr>"
  let ?t = "\<lparr>pending = target_line @ netmask_line, ending = AtEOF\<rparr>"
  \<comment> \<open>a return in the first stage\<close>
  have "map_option (\<lambda>(c, l, s, r). (c, r)) (read_prefix demo_platform stale_line ?s zero_route) =
          Some (Return (- 22), zero_route)"
    by code_simp
  then obtain l1 s1 where
    p: "read_prefix demo_platform stale_line ?s zero_route = Some (Return (- 22), l1, s1, zero_route)"
    by (cases "read_prefix demo_platform stale_line ?s zero_route") auto
  from each_stage_makes_one_line_read [where E = demo_platform and line = stale_line and s = ?s
      and route = zero_route and ?v1.0 = "- 22" and ?l1.0 = l1 and ?s1.0 = s1 and ?r1.0 = zero_route] p
  have a: "netlib_read_ipv6route demo_platform stale_line ?s zero_route =
             Some (- 22, after_fgets PROCFS_LINELEN ?s, zero_route)"
    by blast
  \<comment> \<open>the second stage runs on, the third ends the call\<close>
  have "map_option (\<lambda>(c, l, s, r). c) (read_netmask demo_platform stale_line ?s zero_route) =
          Some Fallthrough"
    by code_simp
  then obtain l2 s2 r2 where
    n: "read_netmask demo_platform stale_line ?s zero_route = Some (Fallthrough, l2, s2, r2)"
    by (cases "read_netmask demo_platform stale_line ?s zero_route") auto
  have "map_option fst (from_netmask demo_platform stale_line ?s zero_route) = Some sizeof_route"
    by code_simp
  then obtain s3 r3 where
    f: "from_netmask demo_platform stale_line ?s zero_route = Some (sizeof_route, s3, r3)"
    by (cases "from_netmask demo_platform stale_line ?s zero_route") auto
  from each_stage_makes_one_line_read [where E = demo_platform and line = stale_line and s = ?s
      and route = zero_route and ?l2.0 = l2 and ?s2.0 = s2 and ?r2.0 = r2
      and ?v3.0 = sizeof_route and s3' = s3 and r3' = r3] n f
  have "s3 = after_fgets PROCFS_LINELEN (after_fgets PROCFS_LINELEN ?s)" by blast
  with f have b: "\<exists>r. from_netmask demo_platform stale_line ?s zero_route =
      Some (sizeof_route, after_fgets PROCFS_LINELEN (after_fgets PROCFS_LINELEN ?s), r)"
    by auto
  \<comment> \<open>the third stage alone\<close>
  have "map_option fst (from_router demo_platform stale_line ?s zero_route) = Some sizeof_route"
    by code_simp
  then obtain s4 r4 where
    g: "from_router demo_platform stale_line ?s zero_route = Some (sizeof_route, s4, r4)"
    by (cases "from_router demo_platform stale_line ?s zero_route") auto
  from each_stage_makes_one_line_read [where E = demo_platform and line = stale_line and s = ?s
      and route = zero_route and ?v4.0 = sizeof_route and ?s4.0 = s4 and ?r4.0 = r4] g
  have "s4 = after_fgets PROCFS_LINELEN ?s" by blast
  with g have c: "\<exists>r. from_router demo_platform stale_line ?s zero_route =
      Some (sizeof_route, after_fgets PROCFS_LINELEN ?s, r)"
    by auto
  \<comment> \<open>a return in the second stage\<close>
  have "map_option (\<lambda>(c, l, s, r). (c, r)) (read_netmask demo_platform stale_line ?t zero_route) =
          Some (Return (- 22), zero_route)"
    by code_simp
  then obtain l5 s5 where
    m: "read_netmask demo_platform stale_line ?t zero_route = Some (Return (- 22), l5, s5, zero_route)"
    by (cases "read_netmask demo_platform stale_line ?t zero_route") auto
  from each_stage_makes_one_line_read [where E = demo_platform and line = stale_line and s = ?t
      and route = zero_route and ?v2.0 = "- 22" and ?l2.0 = l5 and ?s2.0 = s5 and ?r2.0 = zero_route] m
  have d: "from_netmask demo_platform stale_line ?t zero_route =
             Some (- 22, after_fgets PROCFS_LINELEN ?t, zero_route)"
    by blast
  have e1: "after_fgets PROCFS_LINELEN ?s = \<lparr>pending = router_line, ending = AtEOF\<rparr>"
    by code_simp
  have e2: "after_fgets PROCFS_LINELEN (after_fgets PROCFS_LINELEN ?s) = \<lparr>pending = [], ending = AtEOF\<rparr>"
    by code_simp
  have e3: "after_fgets PROCFS_LINELEN ?t = \<lparr>pending = netmask_line, ending = AtEOF\<rparr>"
    by code_simp
  from a b c d e1 e2 e3 show ?thesis by (intro conjI)
qed

end
